theory Spec2Isabelle
  imports Main "HOL-Library.Word" "HOL-Library.Sublist" "HOL-Library.AList"
begin

section \<open>Strings and platform functions\<close>

text \<open>
  The service of \<^verbatim>\<open>ng-cookie.service.ts\<close> computes on JavaScript strings, which are
  sequences of 16-bit code units. A string is a list of 16-bit words; \<open>str\<close> writes an
  ASCII literal as such a list.
\<close>

type_synonym code_unit = "16 word"
type_synonym js_string = "code_unit list"

definition str :: "string \<Rightarrow> js_string" where
  "str s = map of_char s"

text \<open>The exceptions the platform functions used by the service can throw.\<close>

datatype error = URIError | TypeError

definition prepend :: "js_string \<Rightarrow> error + js_string \<Rightarrow> error + js_string" where
  "prepend p r = (case r of Inl e \<Rightarrow> Inl e | Inr s \<Rightarrow> Inr (p @ s))"

subsection \<open>\<^verbatim>\<open>encodeURIComponent\<close>\<close>

text \<open>
  ECMAScript's \<^verbatim>\<open>encodeURIComponent\<close>: the unreserved characters (letters, digits and
  \<^verbatim>\<open>- _ . ! ~ * ' ( )\<close>) stay; every other code point is written as the percent
  escapes of its UTF-8 octets, with upper-case hexadecimal digits; a surrogate code unit
  that is not part of a pair throws \<^verbatim>\<open>URIError\<close>.
\<close>

definition uriUnescaped :: "code_unit \<Rightarrow> bool" where
  "uriUnescaped c \<longleftrightarrow>
     (0x41 \<le> c \<and> c \<le> 0x5A) \<or> (0x61 \<le> c \<and> c \<le> 0x7A) \<or> (0x30 \<le> c \<and> c \<le> 0x39) \<or>
     c \<in> {0x2D, 0x5F, 0x2E, 0x21, 0x7E, 0x2A, 0x27, 0x28, 0x29}"

definition hexDigit :: "nat \<Rightarrow> code_unit" where
  "hexDigit d = (if d < 10 then of_nat (48 + d) else of_nat (55 + d))"

definition percentEscape :: "nat \<Rightarrow> js_string" where
  "percentEscape b = [0x25, hexDigit (b div 16), hexDigit (b mod 16)]"

definition utf8Encode :: "nat \<Rightarrow> nat list" where
  "utf8Encode cp =
     (if cp < 0x80 then [cp]
      else if cp < 0x800 then [0xC0 + cp div 64, 0x80 + cp mod 64]
      else if cp < 0x10000 then [0xE0 + cp div 4096, 0x80 + cp div 64 mod 64, 0x80 + cp mod 64]
      else [0xF0 + cp div 262144, 0x80 + cp div 4096 mod 64, 0x80 + cp div 64 mod 64,
            0x80 + cp mod 64])"

definition escapeCodePoint :: "nat \<Rightarrow> js_string" where
  "escapeCodePoint cp = concat (map percentEscape (utf8Encode cp))"

definition isLeadSurrogate :: "code_unit \<Rightarrow> bool" where
  "isLeadSurrogate c \<longleftrightarrow> 0xD800 \<le> c \<and> c \<le> 0xDBFF"

definition isTrailSurrogate :: "code_unit \<Rightarrow> bool" where
  "isTrailSurrogate c \<longleftrightarrow> 0xDC00 \<le> c \<and> c \<le> 0xDFFF"

definition surrogatePair :: "code_unit \<Rightarrow> code_unit \<Rightarrow> nat" where
  "surrogatePair hi lo = (unat hi - 0xD800) * 0x400 + (unat lo - 0xDC00) + 0x10000"

fun encodeURIComponent :: "js_string \<Rightarrow> error + js_string" where
  "encodeURIComponent [] = Inr []"
| "encodeURIComponent (c # cs) =
     (if uriUnescaped c then prepend [c] (encodeURIComponent cs)
      else if isTrailSurrogate c then Inl URIError
      else if isLeadSurrogate c then
        (case cs of
           [] \<Rightarrow> Inl URIError
         | d # ds \<Rightarrow>
             if isTrailSurrogate d
             then prepend (escapeCodePoint (surrogatePair c d)) (encodeURIComponent ds)
             else Inl URIError)
      else prepend (escapeCodePoint (unat c)) (encodeURIComponent cs))"

subsection \<open>\<^verbatim>\<open>decodeURIComponent\<close>\<close>

text \<open>
  ECMAScript's \<^verbatim>\<open>decodeURIComponent\<close>: a code unit other than \<^verbatim>\<open>%\<close> is copied; a
  \<^verbatim>\<open>%\<close> must be followed by two hexadecimal digits (either case), an octet below
  \<^verbatim>\<open>0x80\<close> is the character itself, and a larger one must start, together with the
  escapes that follow it, the UTF-8 encoding of one Unicode scalar value (no overlong
  form, no surrogate, at most \<^verbatim>\<open>0x10FFFF\<close>), which is written as one or two UTF-16 code
  units. Everything else throws \<^verbatim>\<open>URIError\<close>.
\<close>

definition hexValue :: "code_unit \<Rightarrow> nat option" where
  "hexValue c =
     (if 0x30 \<le> c \<and> c \<le> 0x39 then Some (unat c - 48)
      else if 0x41 \<le> c \<and> c \<le> 0x46 then Some (unat c - 55)
      else if 0x61 \<le> c \<and> c \<le> 0x66 then Some (unat c - 87)
      else None)"

fun parseHexOctet :: "js_string \<Rightarrow> (nat \<times> js_string) option" where
  "parseHexOctet (a # b # rest) =
     (case hexValue a of
        None \<Rightarrow> None
      | Some h \<Rightarrow> (case hexValue b of None \<Rightarrow> None | Some l \<Rightarrow> Some (16 * h + l, rest)))"
| "parseHexOctet _ = None"

fun escapedOctets :: "nat \<Rightarrow> js_string \<Rightarrow> (nat list \<times> js_string) option" where
  "escapedOctets 0 s = Some ([], s)"
| "escapedOctets (Suc n) [] = None"
| "escapedOctets (Suc n) (p # t) =
     (if p \<noteq> 0x25 then None
      else case parseHexOctet t of
        None \<Rightarrow> None
      | Some (b, r) \<Rightarrow>
          (case escapedOctets n r of None \<Rightarrow> None | Some (bs, r') \<Rightarrow> Some (b # bs, r')))"

definition continuation :: "nat \<Rightarrow> bool" where
  "continuation b \<longleftrightarrow> 0x80 \<le> b \<and> b \<le> 0xBF"

fun utf8Decode :: "nat list \<Rightarrow> nat option" where
  "utf8Decode [b0, b1] =
     (let cp = (b0 - 0xC0) * 64 + (b1 - 0x80)
      in if continuation b1 \<and> 0x80 \<le> cp then Some cp else None)"
| "utf8Decode [b0, b1, b2] =
     (let cp = (b0 - 0xE0) * 4096 + (b1 - 0x80) * 64 + (b2 - 0x80)
      in if continuation b1 \<and> continuation b2 \<and> 0x800 \<le> cp \<and> (cp < 0xD800 \<or> 0xDFFF < cp)
         then Some cp else None)"
| "utf8Decode [b0, b1, b2, b3] =
     (let cp = (b0 - 0xF0) * 262144 + (b1 - 0x80) * 4096 + (b2 - 0x80) * 64 + (b3 - 0x80)
      in if continuation b1 \<and> continuation b2 \<and> continuation b3 \<and> 0x10000 \<le> cp \<and> cp \<le> 0x10FFFF
         then Some cp else None)"
| "utf8Decode _ = None"

definition leadingOnes :: "nat \<Rightarrow> nat" where
  "leadingOnes b =
     (if b < 0x80 then 0 else if b < 0xC0 then 1 else if b < 0xE0 then 2
      else if b < 0xF0 then 3 else if b < 0xF8 then 4 else 5)"

definition utf16Encode :: "nat \<Rightarrow> js_string" where
  "utf16Encode cp =
     (if cp < 0x10000 then [of_nat cp]
      else [of_nat (0xD800 + (cp - 0x10000) div 0x400),
            of_nat (0xDC00 + (cp - 0x10000) mod 0x400)])"

lemma parseHexOctet_length:
  "parseHexOctet s = Some (b, r) \<Longrightarrow> length r < length s"
  by (induction s rule: parseHexOctet.induct) (auto split: option.splits)

lemma escapedOctets_length:
  "escapedOctets n s = Some (bs, r) \<Longrightarrow> length r \<le> length s"
proof (induction n s arbitrary: bs r rule: escapedOctets.induct)
  case (3 n p t)
  then show ?case
    by (fastforce split: if_splits option.splits dest: parseHexOctet_length)
qed auto

function decodeURIComponent :: "js_string \<Rightarrow> error + js_string" where
  "decodeURIComponent [] = Inr []"
| "decodeURIComponent (c # cs) =
     (if c \<noteq> 0x25 then prepend [c] (decodeURIComponent cs)
      else case parseHexOctet cs of
        None \<Rightarrow> Inl URIError
      | Some (b, rest) \<Rightarrow>
          if b < 0x80 then prepend [of_nat b] (decodeURIComponent rest)
          else if leadingOnes b = 1 \<or> 4 < leadingOnes b then Inl URIError
          else
            (case escapedOctets (leadingOnes b - 1) rest of
               None \<Rightarrow> Inl URIError
             | Some (bs, rest') \<Rightarrow>
                 (case utf8Decode (b # bs) of
                    None \<Rightarrow> Inl URIError
                  | Some cp \<Rightarrow> prepend (utf16Encode cp) (decodeURIComponent rest'))))"
  by pat_completeness auto
termination
proof (relation "measure length", goal_cases)
  case 1
  show ?case by simp
next
  case (2 c cs)
  show ?case by simp
next
  case (3 c cs x2 b rest)
  from 3(2,3) have "length rest < length cs"
    using parseHexOctet_length [of cs b rest] by simp
  then show ?case by simp
next
  case (4 c cs x2 b rest x2a bs rest' cp)
  from 4(2,3) have "length rest < length cs"
    using parseHexOctet_length [of cs b rest] by simp
  moreover from 4(6,7) have "length rest' \<le> length rest"
    using escapedOctets_length [of "leadingOnes b - 1" rest bs rest'] by simp
  ultimately show ?case by simp
qed

subsection \<open>Regular expressions\<close>

text \<open>
  The part of ECMAScript's regular expressions that the pattern of \<^verbatim>\<open>getCookieRegExp\<close>
  uses: pattern characters, the assertions \<^verbatim>\<open>^\<close> and \<^verbatim>\<open>$\<close> (without the \<^verbatim>\<open>m\<close> flag:
  start and end of the input), sequence, alternative, the greedy and the lazy star of a
  character class (\<^verbatim>\<open>\s*\<close> and \<^verbatim>\<open>.*?\<close>) and one capturing group. As in the
  language definition a pattern is run as a backtracking matcher with a continuation:
  an alternative tries its left side first, a greedy star the longest run first, a lazy
  star the shortest. Without the \<^verbatim>\<open>i\<close> flag a pattern character matches exactly its own
  code unit. \<^verbatim>\<open>regExpExec\<close> is \<^verbatim>\<open>exec\<close> on a new object (\<^verbatim>\<open>lastIndex\<close> 0): the
  left-most start index at which the pattern matches.
\<close>

definition isLineTerminator :: "code_unit \<Rightarrow> bool" where
  "isLineTerminator c \<longleftrightarrow> c \<in> {0x0A, 0x0D, 0x2028, 0x2029}"

definition isWhiteSpace :: "code_unit \<Rightarrow> bool" where
  "isWhiteSpace c \<longleftrightarrow>
     c \<in> {0x09, 0x0B, 0x0C, 0x20, 0xA0, 0x1680, 0x202F, 0x205F, 0x3000, 0xFEFF} \<or>
     (0x2000 \<le> c \<and> c \<le> 0x200A) \<or> isLineTerminator c"

datatype char_class = Dot | WhiteSpace

fun classMatches :: "char_class \<Rightarrow> code_unit \<Rightarrow> bool" where
  "classMatches Dot c = (\<not> isLineTerminator c)"
| "classMatches WhiteSpace c = isWhiteSpace c"

datatype regex =
    Empty
  | Chr code_unit
  | Bol
  | Eol
  | Seq regex regex
  | Alt regex regex
  | Star char_class
  | LazyStar char_class
  | Group regex

record match_state =
  endIndex :: nat
  remaining :: js_string
  capture :: "js_string option"

type_synonym continuation = "match_state \<Rightarrow> match_state option"

fun starGreedy ::
  "char_class \<Rightarrow> nat \<Rightarrow> js_string \<Rightarrow> js_string option \<Rightarrow> continuation \<Rightarrow> match_state option" where
  "starGreedy cls i [] cap k = k \<lparr>endIndex = i, remaining = [], capture = cap\<rparr>"
| "starGreedy cls i (x # xs) cap k =
     (if classMatches cls x then
        (case starGreedy cls (Suc i) xs cap k of
           Some m \<Rightarrow> Some m
         | None \<Rightarrow> k \<lparr>endIndex = i, remaining = x # xs, capture = cap\<rparr>)
      else k \<lparr>endIndex = i, remaining = x # xs, capture = cap\<rparr>)"

fun starLazy ::
  "char_class \<Rightarrow> nat \<Rightarrow> js_string \<Rightarrow> js_string option \<Rightarrow> continuation \<Rightarrow> match_state option" where
  "starLazy cls i [] cap k = k \<lparr>endIndex = i, remaining = [], capture = cap\<rparr>"
| "starLazy cls i (x # xs) cap k =
     (case k \<lparr>endIndex = i, remaining = x # xs, capture = cap\<rparr> of
        Some m \<Rightarrow> Some m
      | None \<Rightarrow> if classMatches cls x then starLazy cls (Suc i) xs cap k else None)"

fun matches :: "regex \<Rightarrow> match_state \<Rightarrow> continuation \<Rightarrow> match_state option" where
  "matches Empty s k = k s"
| "matches (Chr c) s k =
     (case remaining s of
        [] \<Rightarrow> None
      | x # xs \<Rightarrow> if x = c then k (s\<lparr>endIndex := Suc (endIndex s), remaining := xs\<rparr>) else None)"
| "matches Bol s k = (if endIndex s = 0 then k s else None)"
| "matches Eol s k = (if remaining s = [] then k s else None)"
| "matches (Seq a b) s k = matches a s (\<lambda>s'. matches b s' k)"
| "matches (Alt a b) s k = (case matches a s k of Some m \<Rightarrow> Some m | None \<Rightarrow> matches b s k)"
| "matches (Star cls) s k = starGreedy cls (endIndex s) (remaining s) (capture s) k"
| "matches (LazyStar cls) s k = starLazy cls (endIndex s) (remaining s) (capture s) k"
| "matches (Group a) s k =
     matches a s
       (\<lambda>s'. k (s'\<lparr>capture := Some (take (endIndex s' - endIndex s) (remaining s))\<rparr>))"

fun execFrom :: "regex \<Rightarrow> nat \<Rightarrow> js_string \<Rightarrow> match_state option" where
  "execFrom r i [] = matches r \<lparr>endIndex = i, remaining = [], capture = None\<rparr> Some"
| "execFrom r i (x # xs) =
     (case matches r \<lparr>endIndex = i, remaining = x # xs, capture = None\<rparr> Some of
        Some m \<Rightarrow> Some m
      | None \<Rightarrow> execFrom r (Suc i) xs)"

definition regExpExec :: "regex \<Rightarrow> js_string \<Rightarrow> match_state option" where
  "regExpExec r s = execFrom r 0 s"

definition regExpTest :: "regex \<Rightarrow> js_string \<Rightarrow> bool" where
  "regExpTest r s \<longleftrightarrow> regExpExec r s \<noteq> None"

subsection \<open>Header collections\<close>

text \<open>
  The \<^verbatim>\<open>Headers\<close> class of the Fetch standard, as a list of name and value pairs. Names
  are compared without regard to ASCII case. \<^verbatim>\<open>get\<close> joins the values of all headers of
  that name with a comma and a space, and is \<^verbatim>\<open>null\<close> when there is none. \<^verbatim>\<open>set\<close>
  strips leading and trailing HTTP whitespace from the value, throws \<^verbatim>\<open>TypeError\<close> on a
  value that is not a header value (a code unit above \<^verbatim>\<open>0xFF\<close>, NUL, LF or CR), and then
  sets the value of the first header of that name and removes the others, or appends the
  header when there is none.
\<close>

type_synonym headers = "(js_string \<times> js_string) list"

definition asciiLower :: "js_string \<Rightarrow> js_string" where
  "asciiLower s = map (\<lambda>c. if 0x41 \<le> c \<and> c \<le> 0x5A then c + 0x20 else c) s"

definition sameHeaderName :: "js_string \<Rightarrow> js_string \<Rightarrow> bool" where
  "sameHeaderName a b \<longleftrightarrow> asciiLower a = asciiLower b"

fun joinWith :: "js_string \<Rightarrow> js_string list \<Rightarrow> js_string" where
  "joinWith sep [] = []"
| "joinWith sep [x] = x"
| "joinWith sep (x # y # ys) = x @ sep @ joinWith sep (y # ys)"

definition headers_get :: "headers \<Rightarrow> js_string \<Rightarrow> js_string option" where
  "headers_get hs name =
     (let values = map snd (filter (\<lambda>h. sameHeaderName (fst h) name) hs)
      in if values = [] then None else Some (joinWith (str '', '') values))"

definition isHttpWhitespace :: "code_unit \<Rightarrow> bool" where
  "isHttpWhitespace c \<longleftrightarrow> c \<in> {0x09, 0x0A, 0x0D, 0x20}"

definition normalizeValue :: "js_string \<Rightarrow> js_string" where
  "normalizeValue v = rev (dropWhile isHttpWhitespace (rev (dropWhile isHttpWhitespace v)))"

definition isHeaderValue :: "js_string \<Rightarrow> bool" where
  "isHeaderValue v \<longleftrightarrow> list_all (\<lambda>c. c \<le> 0xFF \<and> c \<noteq> 0x00 \<and> c \<noteq> 0x0A \<and> c \<noteq> 0x0D) v"

fun replaceFirst :: "js_string \<Rightarrow> js_string \<Rightarrow> headers \<Rightarrow> headers" where
  "replaceFirst name v [] = []"
| "replaceFirst name v (h # hs) =
     (if sameHeaderName (fst h) name
      then (fst h, v) # filter (\<lambda>h'. \<not> sameHeaderName (fst h') name) hs
      else h # replaceFirst name v hs)"

definition headers_set :: "headers \<Rightarrow> js_string \<Rightarrow> js_string \<Rightarrow> error + headers" where
  "headers_set hs name v =
     (let v' = normalizeValue v
      in if \<not> isHeaderValue v' then Inl TypeError
         else if list_ex (\<lambda>h. sameHeaderName (fst h) name) hs then Inr (replaceFirst name v' hs)
         else Inr (hs @ [(name, v')]))"

section \<open>The cookie service\<close>

subsection \<open>State and collaborators\<close>

text \<open>
  \<open>platform\<close> holds what the service takes from its platform and does not define: the
  clock (\<^verbatim>\<open>new Date().getTime()\<close>), \<^verbatim>\<open>Date.prototype.toUTCString\<close> on a valid time
  value, and the effect of assigning a string to \<^verbatim>\<open>document.cookie\<close> on the string that
  \<^verbatim>\<open>document.cookie\<close> returns.

  \<open>service\<close> is the state an instance reads and writes: \<open>documentIsAccessible\<close>
  (\<^verbatim>\<open>isPlatformBrowser\<close>), the value of \<^verbatim>\<open>document.cookie\<close>, the headers of the injected
  request (\<open>None\<close> when \<^verbatim>\<open>this.request\<close> is \<^verbatim>\<open>null\<close>), the headers of the injected
  \<^verbatim>\<open>responseInit\<close> (\<open>None\<close> when \<^verbatim>\<open>this.responseInit?.headers\<close> is undefined), and the
  messages given to \<^verbatim>\<open>console.warn\<close>.
\<close>

record platform =
  getTime :: int
  toUTCString :: "int \<Rightarrow> js_string"
  assignDocumentCookie :: "js_string \<Rightarrow> js_string \<Rightarrow> js_string"

record service =
  documentIsAccessible :: bool
  document_cookie :: js_string
  request_headers :: "headers option"
  responseInit_headers :: "headers option"
  console :: "js_string list"

definition cookie :: "service \<Rightarrow> js_string" where
  "cookie this =
     (if documentIsAccessible this then document_cookie this
      else case request_headers this of
        None \<Rightarrow> []
      | Some hs \<Rightarrow> (case headers_get hs (str ''cookie'') of None \<Rightarrow> [] | Some v \<Rightarrow> v))"

subsection \<open>\<^verbatim>\<open>getCookieRegExp\<close>\<close>

text \<open>
  \<^verbatim>\<open>name.replace(/([\[\]\{\}\(\)\|\=\;\+\?\,\.\*\^\$])/gi, '\\$1')\<close> puts a backslash before
  each of the seventeen listed characters (\<open>escapeName\<close>). The constructor then reads the
  pattern \<^verbatim>\<open>(?:^NAME|;\s*NAME)=(.*?)(?:;|$)\<close> with the flags \<^verbatim>\<open>g\<close>: no \<^verbatim>\<open>i\<close>, so
  matching is exact on code units. \<open>literalPattern\<close> is how the constructor reads the
  escaped name: a backslash and the character after it stand for that character, any
  other character for itself. This is the constructor's reading for every name without a
  backslash of its own; \<^verbatim>\<open>check\<close> and \<^verbatim>\<open>get\<close> pass the result of
  \<^verbatim>\<open>encodeURIComponent\<close>, which never holds one.
\<close>

definition regexSpecial :: "code_unit \<Rightarrow> bool" where
  "regexSpecial c \<longleftrightarrow> c \<in> set (str ''[]{}()|=;+?,.*^$'')"

definition escapeName :: "js_string \<Rightarrow> js_string" where
  "escapeName name = concat (map (\<lambda>c. if regexSpecial c then [0x5C, c] else [c]) name)"

fun literalPattern :: "js_string \<Rightarrow> regex" where
  "literalPattern [] = Empty"
| "literalPattern (c # cs) =
     (if c = 0x5C then
        (case cs of [] \<Rightarrow> Chr c | d # ds \<Rightarrow> Seq (Chr d) (literalPattern ds))
      else Seq (Chr c) (literalPattern cs))"

definition getCookieRegExp :: "js_string \<Rightarrow> regex" where
  "getCookieRegExp name =
     (let escapedName = literalPattern (escapeName name)
      in Seq (Alt (Seq Bol escapedName) (Seq (Chr 0x3B) (Seq (Star WhiteSpace) escapedName)))
           (Seq (Chr 0x3D) (Seq (Group (LazyStar Dot)) (Alt (Chr 0x3B) Eol))))"

subsection \<open>\<^verbatim>\<open>safeDecodeURIComponent\<close>\<close>

text \<open>
  \<^verbatim>\<open>try { return decodeURIComponent(s) } catch { return s }\<close>: the \<^verbatim>\<open>catch\<close> takes every
  exception, so the function returns a string on every input.
\<close>

definition safeDecodeURIComponent :: "js_string \<Rightarrow> js_string" where
  "safeDecodeURIComponent encodedURIComponent =
     (case decodeURIComponent encodedURIComponent of
        Inr decoded \<Rightarrow> decoded
      | Inl _ \<Rightarrow> encodedURIComponent)"

subsection \<open>\<^verbatim>\<open>check\<close>, \<^verbatim>\<open>get\<close> and \<^verbatim>\<open>getAll\<close>\<close>

text \<open>
  \<^verbatim>\<open>check\<close> and \<^verbatim>\<open>get\<close> encode the name first, so both throw what
  \<^verbatim>\<open>encodeURIComponent\<close> throws. In \<^verbatim>\<open>get\<close>, \<^verbatim>\<open>result[1] ? ... : ''\<close> takes the empty
  capture to the empty string.
\<close>

definition check :: "service \<Rightarrow> js_string \<Rightarrow> error + bool" where
  "check this name =
     (case encodeURIComponent name of
        Inl e \<Rightarrow> Inl e
      | Inr name' \<Rightarrow> Inr (regExpTest (getCookieRegExp name') (cookie this)))"

definition get :: "service \<Rightarrow> js_string \<Rightarrow> error + js_string" where
  "get this name =
     (case check this name of
        Inl e \<Rightarrow> Inl e
      | Inr False \<Rightarrow> Inr []
      | Inr True \<Rightarrow>
          (case encodeURIComponent name of
             Inl e \<Rightarrow> Inl e
           | Inr name' \<Rightarrow>
               (case regExpExec (getCookieRegExp name') (cookie this) of
                  None \<Rightarrow> Inr []
                | Some result \<Rightarrow>
                    (case capture result of
                       None \<Rightarrow> Inr []
                     | Some v \<Rightarrow> if v = [] then Inr [] else Inr (safeDecodeURIComponent v)))))"

text \<open>
  \<^verbatim>\<open>getAll\<close>: \<^verbatim>\<open>String.prototype.split\<close> with a one-character separator cuts at every
  occurrence of it. \<^verbatim>\<open>const [cookieName, cookieValue] = currentCookie.split('=')\<close> takes
  the first two pieces; with no \<^verbatim>\<open>=\<close> in the fragment \<^verbatim>\<open>cookieValue\<close> is
  \<^verbatim>\<open>undefined\<close>, which \<^verbatim>\<open>decodeURIComponent\<close> reads as the string \<^verbatim>\<open>undefined\<close>.
  \<^verbatim>\<open>replace(/^ /, '')\<close> removes one leading space. The result object is an association
  list in insertion order. \<^verbatim>\<open>cookies[key] = value\<close> (\<open>assignProperty\<close>) replaces the value of
  a key the object holds in place and adds any other key at the end (\<open>AList.update\<close>),
  except for the key \<^verbatim>\<open>__proto__\<close>: that assignment reaches the setter inherited from
  \<^verbatim>\<open>Object.prototype\<close>, which ignores a value that is not an object, so the object gets
  no property of that name.
\<close>

fun split :: "code_unit \<Rightarrow> js_string \<Rightarrow> js_string list" where
  "split sep [] = [[]]"
| "split sep (c # cs) =
     (if c = sep then [] # split sep cs
      else (c # hd (split sep cs)) # tl (split sep cs))"

definition stripLeadingSpace :: "js_string \<Rightarrow> js_string" where
  "stripLeadingSpace s = (case s of [] \<Rightarrow> [] | c # cs \<Rightarrow> if c = 0x20 then cs else s)"

type_synonym cookies = "(js_string \<times> js_string) list"

definition assignProperty :: "cookies \<Rightarrow> js_string \<Rightarrow> js_string \<Rightarrow> cookies" where
  "assignProperty cookies key v =
     (if key = str ''__proto__'' then cookies else AList.update key v cookies)"

definition putCookie :: "cookies \<Rightarrow> js_string \<Rightarrow> cookies" where
  "putCookie cookies currentCookie =
     (let parts = split 0x3D currentCookie;
          cookieName = hd parts;
          cookieValue = (case tl parts of [] \<Rightarrow> str ''undefined'' | v # _ \<Rightarrow> v)
      in assignProperty cookies (safeDecodeURIComponent (stripLeadingSpace cookieName))
           (safeDecodeURIComponent cookieValue))"

definition getAll :: "service \<Rightarrow> cookies" where
  "getAll this =
     (let cookieString = cookie this
      in if cookieString \<noteq> [] then foldl putCookie [] (split 0x3B cookieString) else [])"

subsection \<open>\<^verbatim>\<open>set\<close>\<close>

text \<open>
  The attributes. \<^verbatim>\<open>expires\<close> is a number or a \<^verbatim>\<open>Date\<close>. A number is modelled when it is
  an integer or \<^verbatim>\<open>NaN\<close>: on integers the arithmetic of \<^verbatim>\<open>set\<close> is exact in double
  precision wherever the result is a time value in the range of \<^verbatim>\<open>Date\<close>, and
  \<open>newDate\<close> gives the invalid date outside that range, as \<^verbatim>\<open>new Date(t)\<close> does.
  \<open>NotADate\<close> stands for an object that is neither: \<^verbatim>\<open>set\<close> puts its third argument
  into \<^verbatim>\<open>expires\<close> when it is called with an attributes object and a positional
  attribute, and \<^verbatim>\<open>options.expires.toUTCString()\<close> then throws \<^verbatim>\<open>TypeError\<close>.
\<close>

datatype same_site = Lax | None' | Strict

fun sameSiteString :: "same_site \<Rightarrow> js_string" where
  "sameSiteString Lax = str ''Lax''"
| "sameSiteString None' = str ''None''"
| "sameSiteString Strict = str ''Strict''"

datatype js_number = Num int | NaN

datatype js_date = Date int | InvalidDate

definition newDate :: "int \<Rightarrow> js_date" where
  "newDate t = (if \<bar>t\<bar> \<le> 8640000000000000 then Date t else InvalidDate)"

fun dateToUTCString :: "platform \<Rightarrow> js_date \<Rightarrow> js_string" where
  "dateToUTCString P (Date t) = toUTCString P t"
| "dateToUTCString P InvalidDate = str ''Invalid Date''"

datatype expires_value = Days js_number | At js_date | NotADate

record options =
  expires :: "expires_value option"
  path :: "js_string option"
  domain :: "js_string option"
  secure :: "bool option"
  sameSite :: "same_site option"
  partitioned :: "bool option"

definition noOptions :: options where
  "noOptions = \<lparr>expires = None, path = None, domain = None, secure = None, sameSite = None,
     partitioned = None\<rparr>"

datatype expires_or_options =
    Undefined
  | Number js_number
  | DateObject js_date
  | Options options

definition truthyString :: "js_string option \<Rightarrow> bool" where
  "truthyString s \<longleftrightarrow> (case s of None \<Rightarrow> False | Some v \<Rightarrow> v \<noteq> [])"

fun truthyExpires :: "expires_value option \<Rightarrow> bool" where
  "truthyExpires None = False"
| "truthyExpires (Some (Days (Num n))) = (n \<noteq> 0)"
| "truthyExpires (Some (Days NaN)) = False"
| "truthyExpires (Some (At d)) = True"
| "truthyExpires (Some NotADate) = True"

fun expiresString :: "platform \<Rightarrow> expires_value \<Rightarrow> error + js_string" where
  "expiresString P (Days (Num n)) =
     Inr (dateToUTCString P (newDate (getTime P + n * 1000 * 60 * 60 * 24)))"
| "expiresString P (Days NaN) = Inr (dateToUTCString P InvalidDate)"
| "expiresString P (At d) = Inr (dateToUTCString P d)"
| "expiresString P NotADate = Inl TypeError"

text \<open>
  Lines 212 to 257 of the source build the cookie string (\<open>buildCookieString\<close>); an
  attribute is written when its value is truthy (a non-empty string, \<^verbatim>\<open>true\<close>, a number
  other than 0 and \<^verbatim>\<open>NaN\<close>, any object). \<open>forcedSecure\<close> is the test of line 237, on
  which \<^verbatim>\<open>secure\<close> is set and the warning is printed. Lines 259 to 264 write the string
  (\<open>writeCookie\<close>). \<open>setWithOptions\<close> is \<^verbatim>\<open>set\<close> from line 212 on; \<open>set_cookie\<close> is
  \<^verbatim>\<open>set\<close> with its eight parameters, whose first branch calls \<^verbatim>\<open>set\<close> again with the
  attributes object it has built, and that call goes to line 212.
\<close>

definition forcedSecure :: "options \<Rightarrow> bool" where
  "forcedSecure opts \<longleftrightarrow> secure opts = Some False \<and> sameSite opts = Some None'"

definition warning :: "js_string \<Rightarrow> js_string" where
  "warning name =
     str ''[ngx-cookie-service] Cookie '' @ name @
     str '' was forced with secure flag because sameSite=None.'' @
     str ''More details : https://github.com/stevermeister/ngx-cookie-service/issues/86#issuecomment-597720130''"

definition buildCookieString ::
  "platform \<Rightarrow> js_string \<Rightarrow> js_string \<Rightarrow> options \<Rightarrow> error + js_string" where
  "buildCookieString P name v opts =
     (case encodeURIComponent name of
        Inl e \<Rightarrow> Inl e
      | Inr name' \<Rightarrow>
     (case encodeURIComponent v of
        Inl e \<Rightarrow> Inl e
      | Inr value' \<Rightarrow>
     (case (if truthyExpires (expires opts)
            then (case expiresString P (the (expires opts)) of
                    Inl e \<Rightarrow> Inl e
                  | Inr d \<Rightarrow> Inr (str ''expires='' @ d @ str '';''))
            else Inr []) of
        Inl e \<Rightarrow> Inl e
      | Inr expiresPart \<Rightarrow>
          Inr (name' @ str ''='' @ value' @ str '';'' @ expiresPart @
               (if truthyString (path opts) then str ''path='' @ the (path opts) @ str '';'' else []) @
               (if truthyString (domain opts)
                then str ''domain='' @ the (domain opts) @ str '';'' else []) @
               (if forcedSecure opts \<or> secure opts = Some True then str ''secure;'' else []) @
               str ''sameSite='' @
               sameSiteString (case sameSite opts of None \<Rightarrow> Lax | Some s \<Rightarrow> s) @ str '';'' @
               (if partitioned opts = Some True then str ''Partitioned;'' else [])))))"

definition writeCookie :: "platform \<Rightarrow> service \<Rightarrow> js_string \<Rightarrow> (error + unit) \<times> service" where
  "writeCookie P this cookieString =
     (if documentIsAccessible this then
        (Inr (), this\<lparr>document_cookie := assignDocumentCookie P (document_cookie this) cookieString\<rparr>)
      else case responseInit_headers this of
        None \<Rightarrow> (Inr (), this)
      | Some hs \<Rightarrow>
          (case headers_set hs (str ''Set-Cookie'') cookieString of
             Inl e \<Rightarrow> (Inl e, this)
           | Inr hs' \<Rightarrow> (Inr (), this\<lparr>responseInit_headers := Some hs'\<rparr>)))"

definition setWithOptions ::
  "platform \<Rightarrow> service \<Rightarrow> js_string \<Rightarrow> js_string \<Rightarrow> options \<Rightarrow> (error + unit) \<times> service" where
  "setWithOptions P this name v opts =
     (case buildCookieString P name v opts of
        Inl e \<Rightarrow> (Inl e, this)
      | Inr cookieString \<Rightarrow>
          writeCookie P
            (if forcedSecure opts then this\<lparr>console := console this @ [warning name]\<rparr> else this)
            cookieString)"

definition set_cookie ::
  "platform \<Rightarrow> service \<Rightarrow> js_string \<Rightarrow> js_string \<Rightarrow> expires_or_options \<Rightarrow>
   js_string option \<Rightarrow> js_string option \<Rightarrow> bool option \<Rightarrow> same_site option \<Rightarrow> bool option \<Rightarrow>
   (error + unit) \<times> service" where
  "set_cookie P this name v expiresOrOptions path' domain' secure' sameSite' partitioned' =
     (if (case expiresOrOptions of Number _ \<Rightarrow> True | DateObject _ \<Rightarrow> True | _ \<Rightarrow> False) \<or>
         truthyString path' \<or> truthyString domain' \<or> secure' = Some True \<or> sameSite' \<noteq> None
      then
        setWithOptions P this name v
          \<lparr>expires =
             (case expiresOrOptions of
                Undefined \<Rightarrow> None
              | Number n \<Rightarrow> Some (Days n)
              | DateObject d \<Rightarrow> Some (At d)
              | Options _ \<Rightarrow> Some NotADate),
           path = path', domain = domain', secure = secure',
           sameSite = Some (case sameSite' of None \<Rightarrow> Lax | Some s \<Rightarrow> s),
           partitioned = partitioned'\<rparr>
      else
        setWithOptions P this name v
          (case expiresOrOptions of Options opts \<Rightarrow> opts | _ \<Rightarrow> noOptions))"

subsection \<open>\<^verbatim>\<open>delete\<close> and \<^verbatim>\<open>deleteAll\<close>\<close>

text \<open>
  \<^verbatim>\<open>new Date('Thu, 01 Jan 1970 00:00:01 GMT')\<close> is the time value 1000. \<^verbatim>\<open>deleteAll\<close>
  visits the keys of \<^verbatim>\<open>getAll()\<close> in the order of \<^verbatim>\<open>for ... in\<close>: the array indices in
  ascending order first, then the other keys in insertion order; an exception ends the
  loop. \<^verbatim>\<open>cookies.hasOwnProperty(cookieName)\<close> is true of every key visited, unless the
  object itself holds a key \<^verbatim>\<open>hasOwnProperty\<close>: then \<^verbatim>\<open>cookies.hasOwnProperty\<close> is that
  cookie's value, a string, and calling it throws \<^verbatim>\<open>TypeError\<close>.
\<close>

definition delete ::
  "platform \<Rightarrow> service \<Rightarrow> js_string \<Rightarrow> js_string option \<Rightarrow> js_string option \<Rightarrow> bool option \<Rightarrow>
   same_site option \<Rightarrow> (error + unit) \<times> service" where
  "delete P this name path' domain' secure' sameSite' =
     set_cookie P this name []
       (Options \<lparr>expires = Some (At (Date 1000)), path = path', domain = domain',
          secure = secure', sameSite = Some (case sameSite' of None \<Rightarrow> Lax | Some s \<Rightarrow> s),
          partitioned = None\<rparr>)
       None None None None None"

fun deleteEach ::
  "platform \<Rightarrow> service \<Rightarrow> cookies \<Rightarrow> js_string list \<Rightarrow> js_string option \<Rightarrow> js_string option \<Rightarrow>
   bool option \<Rightarrow> same_site option \<Rightarrow> (error + unit) \<times> service" where
  "deleteEach P this cookies [] path' domain' secure' sameSite' = (Inr (), this)"
| "deleteEach P this cookies (cookieName # names) path' domain' secure' sameSite' =
     (if map_of cookies (str ''hasOwnProperty'') \<noteq> None then (Inl TypeError, this)
      else case delete P this cookieName path' domain' secure' sameSite' of
        (Inl e, this') \<Rightarrow> (Inl e, this')
      | (Inr _, this') \<Rightarrow> deleteEach P this' cookies names path' domain' secure' sameSite')"

definition isDigit :: "code_unit \<Rightarrow> bool" where
  "isDigit c \<longleftrightarrow> 0x30 \<le> c \<and> c \<le> 0x39"

definition decimalValue :: "js_string \<Rightarrow> nat" where
  "decimalValue s = foldl (\<lambda>n c. 10 * n + (unat c - 48)) 0 s"

definition isArrayIndex :: "js_string \<Rightarrow> bool" where
  "isArrayIndex s \<longleftrightarrow>
     s \<noteq> [] \<and> list_all isDigit s \<and> (s = [0x30] \<or> hd s \<noteq> 0x30) \<and> decimalValue s < 4294967295"

definition forInKeys :: "cookies \<Rightarrow> js_string list" where
  "forInKeys cs =
     sort_key decimalValue (filter isArrayIndex (map fst cs)) @
     filter (\<lambda>k. \<not> isArrayIndex k) (map fst cs)"

definition deleteAll ::
  "platform \<Rightarrow> service \<Rightarrow> js_string option \<Rightarrow> js_string option \<Rightarrow> bool option \<Rightarrow>
   same_site option \<Rightarrow> (error + unit) \<times> service" where
  "deleteAll P this path' domain' secure' sameSite' =
     (let cookies = getAll this
      in deleteEach P this cookies (forInKeys cookies) path' domain' secure' sameSite')"

subsection \<open>Sequences of operations\<close>

text \<open>
  The public operations, and the state after one of them, whether it returned or threw.
\<close>

datatype operation =
    Check js_string
  | Get js_string
  | GetAll
  | Set js_string js_string expires_or_options "js_string option" "js_string option" "bool option"
      "same_site option" "bool option"
  | Delete js_string "js_string option" "js_string option" "bool option" "same_site option"
  | DeleteAll "js_string option" "js_string option" "bool option" "same_site option"

fun perform :: "platform \<Rightarrow> service \<Rightarrow> operation \<Rightarrow> service" where
  "perform P this (Check name) = this"
| "perform P this (Get name) = this"
| "perform P this GetAll = this"
| "perform P this (Set name v e p d s ss pa) = snd (set_cookie P this name v e p d s ss pa)"
| "perform P this (Delete name p d s ss) = snd (delete P this name p d s ss)"
| "perform P this (DeleteAll p d s ss) = snd (deleteAll P this p d s ss)"

text \<open>The value of the \<^verbatim>\<open>Cookie\<close> header of the incoming request, or the empty string.\<close>

definition snapshot :: "service \<Rightarrow> js_string" where
  "snapshot this =
     (case request_headers this of
        None \<Rightarrow> []
      | Some hs \<Rightarrow> (case headers_get hs (str ''cookie'') of None \<Rightarrow> [] | Some v \<Rightarrow> v))"

subsection \<open>Example states\<close>

text \<open>
  A browser whose \<^verbatim>\<open>document.cookie\<close> returns a given string, a server with given request
  and response headers, and a platform for closed examples.
\<close>

definition browser :: "js_string \<Rightarrow> service" where
  "browser c = \<lparr>documentIsAccessible = True, document_cookie = c, request_headers = None,
     responseInit_headers = None, console = []\<rparr>"

definition server :: "headers \<Rightarrow> headers \<Rightarrow> service" where
  "server req res = \<lparr>documentIsAccessible = False, document_cookie = [], request_headers = Some req,
     responseInit_headers = Some res, console = []\<rparr>"

definition testPlatform :: platform where
  "testPlatform = \<lparr>getTime = 0, toUTCString = (\<lambda>t. str ''T''), assignDocumentCookie = (\<lambda>old new. new)\<rparr>"

section \<open>Evaluation lemmas\<close>

lemma escapedOctets_numeral [simp]:
  "escapedOctets (numeral k) [] = None"
  "escapedOctets (numeral k) (p # t) =
     (if p \<noteq> 0x25 then None
      else case parseHexOctet t of
        None \<Rightarrow> None
      | Some (b, r) \<Rightarrow>
          (case escapedOctets (pred_numeral k) r of
             None \<Rightarrow> None
           | Some (bs, r') \<Rightarrow> Some (b # bs, r')))"
  by (simp_all add: numeral_eq_Suc)

lemmas uri_defs =
  str_def hexValue_def hexDigit_def leadingOnes_def continuation_def utf16Encode_def
  prepend_def uriUnescaped_def isLeadSurrogate_def isTrailSurrogate_def surrogatePair_def
  escapeCodePoint_def percentEscape_def utf8Encode_def

lemmas re_defs = regExpTest_def regExpExec_def getCookieRegExp_def escapeName_def regexSpecial_def
  isWhiteSpace_def isLineTerminator_def Let_def

lemmas svc_defs = cookie_def check_def get_def getAll_def putCookie_def assignProperty_def
  stripLeadingSpace_def browser_def
  safeDecodeURIComponent_def

lemmas set_defs = set_cookie_def setWithOptions_def writeCookie_def buildCookieString_def forcedSecure_def
  truthyString_def noOptions_def server_def headers_set_def normalizeValue_def isHeaderValue_def
  sameHeaderName_def asciiLower_def isHttpWhitespace_def testPlatform_def


section \<open>Notions used in the statements\<close>

text \<open>
  Two states of a service agree on what \<^verbatim>\<open>cookie()\<close> reads when they have the same
  platform flag, the same document cookie and the same request headers.
\<close>

definition sameRequest :: "service \<Rightarrow> service \<Rightarrow> bool" where
  "sameRequest a b \<longleftrightarrow>
     documentIsAccessible b = documentIsAccessible a \<and> request_headers b = request_headers a \<and>
     document_cookie b = document_cookie a"

text \<open>
  What the pattern of \<^verbatim>\<open>getCookieRegExp\<close> finds, as functions on lists: \<open>lits\<close> is
  the pattern of a literal name; \<open>valueOf\<close> is the text up to the next \<^verbatim>\<open>;\<close> or the end
  of the input, when no line terminator comes first; \<open>afterName\<close> reads a name, \<^verbatim>\<open>=\<close>
  and that text; \<open>matchAt\<close> is the capture of a match that starts at a given index;
  \<open>scan\<close> is the capture of the left-most match. \<open>uriCharacter\<close> are the characters of
  the results of \<^verbatim>\<open>encodeURIComponent\<close>.
\<close>

fun lits :: "js_string \<Rightarrow> regex" where
  "lits [] = Empty"
| "lits (c # cs) = Seq (Chr c) (lits cs)"

fun valueOf :: "js_string \<Rightarrow> js_string option" where
  "valueOf [] = Some []"
| "valueOf (c # cs) =
     (if c = 0x3B then Some []
      else if isLineTerminator c then None
      else map_option ((#) c) (valueOf cs))"

definition afterName :: "js_string \<Rightarrow> js_string \<Rightarrow> js_string option" where
  "afterName E r = (if prefix (E @ [0x3D]) r then valueOf (drop (Suc (length E)) r) else None)"

definition matchAt :: "js_string \<Rightarrow> nat \<Rightarrow> js_string \<Rightarrow> js_string option" where
  "matchAt E i r =
     (case (if i = 0 then afterName E r else None) of
        Some v \<Rightarrow> Some v
      | None \<Rightarrow>
          (case r of
             [] \<Rightarrow> None
           | x # xs \<Rightarrow> if x = 0x3B then afterName E (dropWhile isWhiteSpace xs) else None))"

fun scan :: "js_string \<Rightarrow> nat \<Rightarrow> js_string \<Rightarrow> js_string option" where
  "scan E i [] = matchAt E i []"
| "scan E i (x # xs) =
     (case matchAt E i (x # xs) of Some v \<Rightarrow> Some v | None \<Rightarrow> scan E (Suc i) xs)"

definition valuePattern :: regex where
  "valuePattern = Seq (Chr 0x3D) (Seq (Group (LazyStar Dot)) (Alt (Chr 0x3B) Eol))"

definition uriCharacter :: "code_unit \<Rightarrow> bool" where
  "uriCharacter c \<longleftrightarrow> uriUnescaped c \<or> c = 0x25"





section \<open>Decoding what was encoded\<close>

lemma unat_code_unit_less: "unat (c :: code_unit) < 65536"
  using unsigned_less [of c, where 'a = nat] by simp

lemma hexValue_hexDigit_upto:
  "\<forall>d \<in> set [0, 1, 2, 3, 4, 5, 6, 7, 8, 9, 10, 11, 12, 13, 14, 15]. hexValue (hexDigit d) = Some d"
  by (simp add: hexValue_def hexDigit_def)

lemma hexValue_hexDigit: "d < 16 \<Longrightarrow> hexValue (hexDigit d) = Some d"
proof -
  assume "d < 16"
  then have "d \<in> set [0, 1, 2, 3, 4, 5, 6, 7, 8, 9, 10, 11, 12, 13, 14, 15]"
    by (simp only: list.set insert_iff empty_iff) presburger
  with hexValue_hexDigit_upto show ?thesis
    by blast
qed

lemma percentEscape_append:
  "percentEscape b @ r = 0x25 # hexDigit (b div 16) # hexDigit (b mod 16) # r"
  by (simp add: percentEscape_def)

lemma parseHexOctet_escape:
  assumes "b < 256"
  shows "parseHexOctet (hexDigit (b div 16) # hexDigit (b mod 16) # r) = Some (b, r)"
proof -
  have "b div 16 < 16" using assms by simp
  moreover have "b mod 16 < 16" by simp
  ultimately show ?thesis
    by (simp add: hexValue_hexDigit)
qed

lemma escapedOctets_escapes:
  "\<forall>b \<in> set bs. b < 256 \<Longrightarrow>
   escapedOctets (length bs) (concat (map percentEscape bs) @ r) = Some (bs, r)"
proof (induction bs)
  case Nil
  show ?case by simp
next
  case (Cons b bs)
  then have "parseHexOctet (hexDigit (b div 16) # hexDigit (b mod 16) # concat (map percentEscape bs) @ r)
      = Some (b, concat (map percentEscape bs) @ r)"
    by (intro parseHexOctet_escape) simp
  with Cons show ?case
    by (simp add: percentEscape_append del: parseHexOctet.simps)
qed

lemma decode_escape:
  assumes "b < 256"
  shows "decodeURIComponent (percentEscape b @ r) =
     (if b < 0x80 then prepend [of_nat b] (decodeURIComponent r)
      else if leadingOnes b = 1 \<or> 4 < leadingOnes b then Inl URIError
      else case escapedOctets (leadingOnes b - 1) r of
        None \<Rightarrow> Inl URIError
      | Some (bs, rest') \<Rightarrow>
          (case utf8Decode (b # bs) of
             None \<Rightarrow> Inl URIError
           | Some cp \<Rightarrow> prepend (utf16Encode cp) (decodeURIComponent rest')))"
  using parseHexOctet_escape [OF assms, of r]
  by (simp add: percentEscape_append del: parseHexOctet.simps)

lemma escapedOctets_one:
  "b < 256 \<Longrightarrow> escapedOctets (Suc 0) (percentEscape b @ r) = Some ([b], r)"
  using escapedOctets_escapes [of "[b]" r] by simp

lemma escapedOctets_two:
  "b < 256 \<Longrightarrow> c < 256 \<Longrightarrow>
   escapedOctets (Suc (Suc 0)) (percentEscape b @ percentEscape c @ r) = Some ([b, c], r)"
  using escapedOctets_escapes [of "[b, c]" r] by simp

lemma escapedOctets_three:
  "b < 256 \<Longrightarrow> c < 256 \<Longrightarrow> d < 256 \<Longrightarrow>
   escapedOctets (Suc (Suc (Suc 0))) (percentEscape b @ percentEscape c @ percentEscape d @ r) =
     Some ([b, c, d], r)"
  using escapedOctets_escapes [of "[b, c, d]" r] by simp

lemma decode_codePoint1:
  assumes "cp < 0x80"
  shows "decodeURIComponent (escapeCodePoint cp @ r) =
         prepend (utf16Encode cp) (decodeURIComponent r)"
proof -
  have "cp < 256" using assms by simp
  from decode_escape [OF this, of r] assms show ?thesis
    by (simp add: escapeCodePoint_def utf8Encode_def utf16Encode_def)
qed

lemma decode_codePoint2:
  assumes "0x80 \<le> cp" and "cp < 0x800"
  shows "decodeURIComponent (escapeCodePoint cp @ r) =
         prepend (utf16Encode cp) (decodeURIComponent r)"
proof -
  let ?b0 = "0xC0 + cp div 64" and ?b1 = "0x80 + cp mod 64"
  have d: "cp div 64 < 32" using assms by simp
  have m: "cp mod 64 < 64" by simp
  have b0: "?b0 < 256" "\<not> ?b0 < 0x80" "leadingOnes ?b0 = 2"
    using d by (simp_all add: leadingOnes_def)
  have b1: "?b1 < 256" using m by simp
  have cp: "cp div 64 * 64 + cp mod 64 = cp" by simp
  have dec: "utf8Decode [?b0, ?b1] = Some cp"
    using assms m cp by (simp add: continuation_def)
  have enc: "escapeCodePoint cp @ r = percentEscape ?b0 @ percentEscape ?b1 @ r"
    using assms by (simp add: escapeCodePoint_def utf8Encode_def)
  show ?thesis
    unfolding enc decode_escape [OF b0(1)]
    using b0 escapedOctets_one [OF b1, of r] dec by simp
qed

lemma split3: "(cp::nat) div 4096 * 4096 + cp div 64 mod 64 * 64 + cp mod 64 = cp"
proof -
  define q r q2 r2 where "q = cp div 64" and "r = cp mod 64" and "q2 = q div 64" and "r2 = q mod 64"
  have e1: "cp = 64 * q + r" and e2: "q = 64 * q2 + r2"
    by (simp_all add: q_def r_def q2_def r2_def)
  have a: "cp div 4096 = q2"
    by (simp add: q2_def q_def div_mult2_eq)
  have "q2 * 4096 + r2 * 64 + r = cp"
    using e1 e2 by linarith
  then show ?thesis
    by (simp only: a q_def [symmetric] r_def [symmetric] r2_def [symmetric])
qed

lemma split4:
  "(cp::nat) div 262144 * 262144 + cp div 4096 mod 64 * 4096 + cp div 64 mod 64 * 64 + cp mod 64 = cp"
proof -
  define q r2 r where "q = cp div 4096" and "r2 = cp div 64 mod 64" and "r = cp mod 64"
  define q3 r3 where "q3 = q div 64" and "r3 = q mod 64"
  have e1: "q * 4096 + r2 * 64 + r = cp"
    using split3 [of cp] by (simp only: q_def r2_def r_def)
  have e2: "q = 64 * q3 + r3"
    by (simp add: q3_def r3_def)
  have a: "cp div 262144 = q3"
    by (simp add: q3_def q_def div_mult2_eq)
  have "q3 * 262144 + r3 * 4096 + r2 * 64 + r = cp"
    using e1 e2 by linarith
  then show ?thesis
    by (simp only: a q_def [symmetric] r_def [symmetric] r2_def [symmetric] r3_def [symmetric])
qed

lemma utf8Decode3:
  "b < 64 \<Longrightarrow> c < 64 \<Longrightarrow>
   utf8Decode [0xE0 + a, 0x80 + b, 0x80 + c] =
     (if 0x800 \<le> a * 4096 + b * 64 + c \<and>
         (a * 4096 + b * 64 + c < 0xD800 \<or> 0xDFFF < a * 4096 + b * 64 + c)
      then Some (a * 4096 + b * 64 + c) else None)"
  by (simp add: continuation_def Let_def)

lemma utf8Decode4:
  "b < 64 \<Longrightarrow> c < 64 \<Longrightarrow> d < 64 \<Longrightarrow>
   utf8Decode [0xF0 + a, 0x80 + b, 0x80 + c, 0x80 + d] =
     (if 0x10000 \<le> a * 262144 + b * 4096 + c * 64 + d \<and>
         a * 262144 + b * 4096 + c * 64 + d \<le> 0x10FFFF
      then Some (a * 262144 + b * 4096 + c * 64 + d) else None)"
  by (simp add: continuation_def Let_def)

lemma decode_codePoint3:
  assumes "0x800 \<le> cp" and "cp < 0x10000" and "cp < 0xD800 \<or> 0xDFFF < cp"
  shows "decodeURIComponent (escapeCodePoint cp @ r) =
         prepend (utf16Encode cp) (decodeURIComponent r)"
proof -
  let ?b0 = "0xE0 + cp div 4096" and ?b1 = "0x80 + cp div 64 mod 64" and ?b2 = "0x80 + cp mod 64"
  have d: "cp div 4096 < 16"
    using assms(2) by (simp add: div_less_iff_less_mult)
  have m1: "cp div 64 mod 64 < 64" and m2: "cp mod 64 < 64" by simp_all
  have b0: "?b0 < 256" "\<not> ?b0 < 0x80" "leadingOnes ?b0 = 3"
    using d by (simp_all add: leadingOnes_def)
  have b1: "?b1 < 256" using m1 by simp
  have b2: "?b2 < 256" using m2 by simp
  have dec: "utf8Decode [?b0, ?b1, ?b2] = Some cp"
    unfolding utf8Decode3 [OF m1 m2] split3 using assms by simp
  have enc: "escapeCodePoint cp @ r = percentEscape ?b0 @ percentEscape ?b1 @ percentEscape ?b2 @ r"
    using assms by (simp add: escapeCodePoint_def utf8Encode_def)
  have oct: "escapedOctets (3 - 1) (percentEscape ?b1 @ percentEscape ?b2 @ r) = Some ([?b1, ?b2], r)"
    using escapedOctets_two [OF b1 b2, of r] by (simp add: numeral_2_eq_2)
  show ?thesis
    unfolding enc decode_escape [OF b0(1)] b0(3)
    using b0(2) oct dec by (simp add: assms utf16Encode_def)
qed

lemma decode_codePoint4:
  assumes "0x10000 \<le> cp" and "cp < 0x110000"
  shows "decodeURIComponent (escapeCodePoint cp @ r) =
         prepend (utf16Encode cp) (decodeURIComponent r)"
proof -
  let ?b0 = "0xF0 + cp div 262144" and ?b1 = "0x80 + cp div 4096 mod 64"
    and ?b2 = "0x80 + cp div 64 mod 64" and ?b3 = "0x80 + cp mod 64"
  have d: "cp div 262144 < 5"
    using assms(2) by (simp add: div_less_iff_less_mult)
  have m1: "cp div 4096 mod 64 < 64" and m2: "cp div 64 mod 64 < 64" and m3: "cp mod 64 < 64"
    by simp_all
  have b0: "?b0 < 256" "\<not> ?b0 < 0x80" "leadingOnes ?b0 = 4"
    using d by (simp_all add: leadingOnes_def)
  have b1: "?b1 < 256" using m1 by simp
  have b2: "?b2 < 256" using m2 by simp
  have b3: "?b3 < 256" using m3 by simp
  have dec: "utf8Decode [?b0, ?b1, ?b2, ?b3] = Some cp"
    unfolding utf8Decode4 [OF m1 m2 m3] split4 using assms by simp
  have enc: "escapeCodePoint cp @ r =
      percentEscape ?b0 @ percentEscape ?b1 @ percentEscape ?b2 @ percentEscape ?b3 @ r"
    using assms by (simp add: escapeCodePoint_def utf8Encode_def)
  have oct: "escapedOctets (4 - 1) (percentEscape ?b1 @ percentEscape ?b2 @ percentEscape ?b3 @ r) =
      Some ([?b1, ?b2, ?b3], r)"
    using escapedOctets_three [OF b1 b2 b3, of r] by (simp add: numeral_3_eq_3)
  show ?thesis
    unfolding enc decode_escape [OF b0(1)] b0(3)
    using b0(2) oct dec by simp
qed

lemma decode_codePoint:
  assumes "cp < 0x110000" and "cp < 0xD800 \<or> 0xDFFF < cp"
  shows "decodeURIComponent (escapeCodePoint cp @ r) =
         prepend (utf16Encode cp) (decodeURIComponent r)"
proof -
  consider "cp < 0x80" | "0x80 \<le> cp" "cp < 0x800" | "0x800 \<le> cp" "cp < 0x10000" | "0x10000 \<le> cp"
    by linarith
  then show ?thesis
  proof cases
    case 1
    then show ?thesis by (rule decode_codePoint1)
  next
    case 2
    then show ?thesis by (rule decode_codePoint2)
  next
    case 3
    then show ?thesis using assms(2) by (rule decode_codePoint3)
  next
    case 4
    then show ?thesis using assms(1) by (rule decode_codePoint4)
  qed
qed

lemma utf16Encode_unit: "utf16Encode (unat (c :: code_unit)) = [c]"
  using unat_code_unit_less [of c] by (simp add: utf16Encode_def)

lemma surrogate_bounds:
  "isLeadSurrogate c \<longleftrightarrow> 0xD800 \<le> unat c \<and> unat c \<le> 0xDBFF"
  "isTrailSurrogate c \<longleftrightarrow> 0xDC00 \<le> unat c \<and> unat c \<le> 0xDFFF"
  by (simp_all add: isLeadSurrogate_def isTrailSurrogate_def word_le_nat_alt)

lemma surrogatePair_range:
  assumes "isLeadSurrogate c" and "isTrailSurrogate d"
  shows "0x10000 \<le> surrogatePair c d" and "surrogatePair c d < 0x110000"
  using assms unfolding surrogate_bounds surrogatePair_def by linarith+

lemma utf16Encode_pair:
  assumes "isLeadSurrogate c" and "isTrailSurrogate d"
  shows "utf16Encode (surrogatePair c d) = [c, d]"
proof -
  define h l where "h = unat c - 0xD800" and "l = unat d - 0xDC00"
  have l: "l < 0x400" and h: "0xD800 + h = unat c" and l': "0xDC00 + l = unat d"
    using assms unfolding surrogate_bounds h_def l_def by linarith+
  have sp: "surrogatePair c d = h * 0x400 + l + 0x10000"
    by (simp add: surrogatePair_def h_def l_def)
  have "(h * 0x400 + l) div 0x400 = h" and "(h * 0x400 + l) mod 0x400 = l"
    using l by simp_all
  then show ?thesis
    by (simp add: utf16Encode_def sp h l')
qed

lemma prepend_Inr_iff: "prepend p r = Inr e \<longleftrightarrow> (\<exists>e'. r = Inr e' \<and> e = p @ e')"
  by (cases r) (auto simp: prepend_def)

lemma uriUnescaped_not_percent: "uriUnescaped c \<Longrightarrow> c \<noteq> 0x25"
  by (auto simp: uriUnescaped_def)

lemma decode_encode:
  "encodeURIComponent s = Inr e \<Longrightarrow> decodeURIComponent e = Inr s"
proof (induction s arbitrary: e rule: encodeURIComponent.induct)
  case 1
  then show ?case by simp
next
  case (2 c cs)
  show ?case
  proof (cases "uriUnescaped c")
    case True
    with "2.prems" obtain e' where e': "encodeURIComponent cs = Inr e'" "e = c # e'"
      by (auto simp: prepend_Inr_iff)
    with "2.IH"(1) [OF True] True show ?thesis
      by (simp add: uriUnescaped_not_percent prepend_def)
  next
    case False
    note unescaped = this
    show ?thesis
    proof (cases "isTrailSurrogate c")
      case True
      with unescaped "2.prems" show ?thesis by simp
    next
      case False
      note trail = this
      show ?thesis
      proof (cases "isLeadSurrogate c")
        case True
        with unescaped trail "2.prems" obtain d ds e'
          where cs: "cs = d # ds" and d: "isTrailSurrogate d"
            and e': "encodeURIComponent ds = Inr e'" "e = escapeCodePoint (surrogatePair c d) @ e'"
          by (auto simp: prepend_Inr_iff split: list.splits if_splits)
        have "decodeURIComponent e' = Inr ds"
          using "2.IH"(2) [OF unescaped trail True cs d e'(1)] .
        moreover have "decodeURIComponent e =
            prepend (utf16Encode (surrogatePair c d)) (decodeURIComponent e')"
          unfolding e'(2) using surrogatePair_range [OF True d]
          by (intro decode_codePoint) simp_all
        ultimately show ?thesis
          by (simp add: utf16Encode_pair [OF True d] cs prepend_def)
      next
        case False
        with unescaped trail "2.prems" obtain e'
          where e': "encodeURIComponent cs = Inr e'" "e = escapeCodePoint (unat c) @ e'"
          by (auto simp: prepend_Inr_iff)
        have "decodeURIComponent e' = Inr cs"
          using "2.IH"(3) [OF unescaped trail False e'(1)] .
        moreover have "unat c < 0xD800 \<or> 0xDFFF < unat c"
          using False trail by (auto simp: surrogate_bounds)
        then have "decodeURIComponent e = prepend (utf16Encode (unat c)) (decodeURIComponent e')"
          unfolding e'(2) using unat_code_unit_less [of c]
          by (intro decode_codePoint) simp_all
        ultimately show ?thesis
          by (simp add: utf16Encode_unit prepend_def)
      qed
    qed
  qed
qed

section \<open>The matches of the cookie pattern\<close>

lemma literalPattern_escapeName:
  "0x5C \<notin> set name \<Longrightarrow> literalPattern (escapeName name) = lits name"
  by (induction name) (auto simp: escapeName_def regexSpecial_def str_def)

lemma matches_lits:
  "matches (lits E) s k =
     (if prefix E (remaining s)
      then k (s\<lparr>endIndex := endIndex s + length E, remaining := drop (length E) (remaining s)\<rparr>)
      else None)"
proof (induction E arbitrary: s)
  case Nil
  show ?case by simp
next
  case (Cons c E)
  show ?case
  proof (cases "remaining s")
    case Nil
    then show ?thesis by simp
  next
    case (Cons x xs)
    then show ?thesis
      by (simp add: Cons.IH)
  qed
qed

lemma starLazy_value:
  "starLazy Dot (i0 + length p) r cap
     (\<lambda>s'. matches (Alt (Chr 0x3B) Eol)
        (s'\<lparr>capture := Some (take (endIndex s' - i0) (p @ r))\<rparr>) Some) =
   (case valueOf r of
      None \<Rightarrow> None
    | Some v \<Rightarrow>
        Some \<lparr>endIndex = i0 + length p + length v + (if length v < length r then 1 else 0),
              remaining = drop (Suc (length v)) r, capture = Some (p @ v)\<rparr>)"
proof (induction r arbitrary: p)
  case Nil
  show ?case by simp
next
  case (Cons x xs)
  show ?case
  proof (cases "x = 0x3B")
    case True
    then show ?thesis by simp
  next
    case False
    show ?thesis
    proof (cases "isLineTerminator x")
      case True
      with False show ?thesis by simp
    next
      case lt: False
      have "starLazy Dot (i0 + length p) (x # xs) cap
          (\<lambda>s'. matches (Alt (Chr 0x3B) Eol)
            (s'\<lparr>capture := Some (take (endIndex s' - i0) (p @ x # xs))\<rparr>) Some) =
        starLazy Dot (i0 + length (p @ [x])) xs cap
          (\<lambda>s'. matches (Alt (Chr 0x3B) Eol)
            (s'\<lparr>capture := Some (take (endIndex s' - i0) ((p @ [x]) @ xs))\<rparr>) Some)"
        using False lt by simp
      also note Cons.IH [of "p @ [x]"]
      finally show ?thesis
        using False lt by (simp split: option.splits)
    qed
  qed
qed

lemma starGreedy_whiteSpace:
  assumes "\<And>j x xs'. isWhiteSpace x \<Longrightarrow> k \<lparr>endIndex = j, remaining = x # xs', capture = cap\<rparr> = None"
  shows "starGreedy WhiteSpace j xs cap k =
     k \<lparr>endIndex = j + length (takeWhile isWhiteSpace xs), remaining = dropWhile isWhiteSpace xs,
        capture = cap\<rparr>"
proof (induction xs arbitrary: j)
  case Nil
  show ?case by simp
next
  case (Cons x xs)
  show ?case
  proof (cases "isWhiteSpace x")
    case True
    with assms [of x j xs] Cons.IH [of "Suc j"] show ?thesis
      by (simp split: option.splits)
  next
    case False
    then show ?thesis by simp
  qed
qed

lemma getCookieRegExp_lits:
  "0x5C \<notin> set E \<Longrightarrow>
   getCookieRegExp E =
     Seq (Alt (Seq Bol (lits E)) (Seq (Chr 0x3B) (Seq (Star WhiteSpace) (lits E)))) valuePattern"
  by (simp add: getCookieRegExp_def literalPattern_escapeName valuePattern_def Let_def)

lemma valuePattern_capture:
  "map_option capture (matches valuePattern \<lparr>endIndex = i, remaining = r, capture = cap\<rparr> Some) =
     (case r of [] \<Rightarrow> None | x # xs \<Rightarrow> if x = 0x3D then map_option Some (valueOf xs) else None)"
proof (cases r)
  case Nil
  then show ?thesis by (simp add: valuePattern_def)
next
  case (Cons x xs)
  have v: "starLazy Dot (Suc i) xs cap
      (\<lambda>s'. matches (Alt (Chr 0x3B) Eol)
         (s'\<lparr>capture := Some (take (endIndex s' - Suc i) xs)\<rparr>) Some) =
    (case valueOf xs of
       None \<Rightarrow> None
     | Some v \<Rightarrow>
         Some \<lparr>endIndex = Suc i + length v + (if length v < length xs then 1 else 0),
               remaining = drop (Suc (length v)) xs, capture = Some v\<rparr>)"
    using starLazy_value [of "Suc i" "[]" xs cap] by (simp del: matches.simps split: option.splits)
  show ?thesis
    by (simp add: Cons valuePattern_def v del: matches.simps(6) split: option.splits)
qed

lemma prefix_snoc_drop:
  "prefix (E @ [c]) r \<longleftrightarrow>
     prefix E r \<and> (case drop (length E) r of [] \<Rightarrow> False | x # xs \<Rightarrow> x = c)"
proof (cases "prefix E r")
  case True
  then obtain r' where "r = E @ r'" by (auto simp: prefix_def)
  then show ?thesis by (cases r') auto
next
  case False
  then show ?thesis by (auto dest: append_prefixD)
qed

lemma name_then_value:
  "map_option capture
     (matches (lits E) \<lparr>endIndex = i, remaining = r, capture = cap\<rparr>
        (\<lambda>s'. matches valuePattern s' Some)) =
   map_option Some (afterName E r)"
proof (cases "prefix E r")
  case True
  then obtain r' where r: "r = E @ r'" by (auto simp: prefix_def)
  have "matches (lits E) \<lparr>endIndex = i, remaining = r, capture = cap\<rparr>
          (\<lambda>s'. matches valuePattern s' Some) =
        matches valuePattern \<lparr>endIndex = i + length E, remaining = r', capture = cap\<rparr> Some"
    by (simp add: matches_lits r)
  then show ?thesis
    by (cases r') (simp_all add: valuePattern_capture afterName_def r)
next
  case False
  then have "\<not> prefix (E @ [0x3D]) r" by (auto dest: append_prefixD)
  with False show ?thesis
    by (simp add: matches_lits afterName_def)
qed

lemma name_fails_on_whiteSpace:
  assumes "\<forall>c \<in> set E. \<not> isWhiteSpace c" and "isWhiteSpace x"
  shows "matches (lits E) \<lparr>endIndex = j, remaining = x # xs, capture = cap\<rparr>
           (\<lambda>s'. matches valuePattern s' Some) = None"
proof -
  have "x \<noteq> 0x3D"
    using assms(2) by (auto simp: isWhiteSpace_def isLineTerminator_def)
  moreover have "E \<noteq> [] \<Longrightarrow> hd E \<noteq> x"
    using assms by (cases E) auto
  ultimately have "afterName E (x # xs) = None"
    by (cases E) (auto simp: afterName_def)
  with name_then_value [of E j "x # xs" cap] show ?thesis
    by simp
qed

lemma map_option_orElse:
  "map_option f (case a of Some m \<Rightarrow> Some m | None \<Rightarrow> b) =
     (case map_option f a of Some c \<Rightarrow> Some c | None \<Rightarrow> map_option f b)"
  by (cases a) simp_all

lemma matches_getCookieRegExp:
  assumes "0x5C \<notin> set E" and "\<forall>c \<in> set E. \<not> isWhiteSpace c"
  shows "map_option capture
           (matches (getCookieRegExp E) \<lparr>endIndex = i, remaining = r, capture = None\<rparr> Some) =
         map_option Some (matchAt E i r)"
proof -
  let ?s = "\<lparr>endIndex = i, remaining = r, capture = None\<rparr>"
  let ?k = "\<lambda>s'. matches valuePattern s' Some"
  have first: "map_option capture (matches (Seq Bol (lits E)) ?s ?k) =
      map_option Some (if i = 0 then afterName E r else None)"
    using name_then_value [of E 0 r None] by (cases "i = 0") simp_all
  have second: "map_option capture (matches (Seq (Chr 0x3B) (Seq (Star WhiteSpace) (lits E))) ?s ?k) =
      map_option Some
        (case r of [] \<Rightarrow> None
         | x # xs \<Rightarrow> if x = 0x3B then afterName E (dropWhile isWhiteSpace xs) else None)"
  proof (cases r)
    case Nil
    then show ?thesis by simp
  next
    case (Cons x xs)
    have "starGreedy WhiteSpace (Suc i) xs None (\<lambda>s'. matches (lits E) s' ?k) =
        matches (lits E)
          \<lparr>endIndex = Suc i + length (takeWhile isWhiteSpace xs),
             remaining = dropWhile isWhiteSpace xs, capture = None\<rparr> ?k"
      by (rule starGreedy_whiteSpace) (rule name_fails_on_whiteSpace [OF assms(2)])
    then show ?thesis
      using Cons name_then_value [of E "Suc i + length (takeWhile isWhiteSpace xs)"
          "dropWhile isWhiteSpace xs" None]
      by simp
  qed
  have "matches (getCookieRegExp E) ?s Some =
      (case matches (Seq Bol (lits E)) ?s ?k of
         Some m \<Rightarrow> Some m
       | None \<Rightarrow> matches (Seq (Chr 0x3B) (Seq (Star WhiteSpace) (lits E))) ?s ?k)"
    by (simp add: getCookieRegExp_lits [OF assms(1)])
  then show ?thesis
    by (simp only: map_option_orElse first second matchAt_def; simp split: option.splits)
qed

lemma execFrom_getCookieRegExp:
  assumes "0x5C \<notin> set E" and "\<forall>c \<in> set E. \<not> isWhiteSpace c"
  shows "map_option capture (execFrom (getCookieRegExp E) i r) = map_option Some (scan E i r)"
proof (induction r arbitrary: i)
  case Nil
  show ?case
    using matches_getCookieRegExp [OF assms, of i "[]"] by simp
next
  case (Cons x xs)
  show ?case
    using matches_getCookieRegExp [OF assms, of i "x # xs"] Cons.IH [of "Suc i"]
    by (simp only: execFrom.simps scan.simps map_option_orElse; simp split: option.splits)
qed

lemma uriUnescaped_hexDigit_upto:
  "\<forall>d \<in> set [0, 1, 2, 3, 4, 5, 6, 7, 8, 9, 10, 11, 12, 13, 14, 15]. uriUnescaped (hexDigit d)"
  by (simp add: uriUnescaped_def hexDigit_def)

lemma uriUnescaped_hexDigit: "d < 16 \<Longrightarrow> uriUnescaped (hexDigit d)"
proof -
  assume "d < 16"
  then have "d \<in> set [0, 1, 2, 3, 4, 5, 6, 7, 8, 9, 10, 11, 12, 13, 14, 15]"
    by (simp only: list.set insert_iff empty_iff) presburger
  with uriUnescaped_hexDigit_upto show ?thesis
    by blast
qed

lemma uriCharacter_percentEscape: "b < 256 \<Longrightarrow> \<forall>c \<in> set (percentEscape b). uriCharacter c"
proof -
  assume "b < 256"
  then have "b div 16 < 16" and "b mod 16 < 16" by simp_all
  then show ?thesis
    by (simp add: percentEscape_def uriCharacter_def uriUnescaped_hexDigit)
qed

lemma utf8Encode_octets: "cp < 0x110000 \<Longrightarrow> \<forall>b \<in> set (utf8Encode cp). b < 256"
proof -
  assume cp: "cp < 0x110000"
  have "cp mod 64 < 64" "cp div 64 mod 64 < 64" "cp div 4096 mod 64 < 64" by simp_all
  moreover have "cp < 0x800 \<Longrightarrow> cp div 64 < 32" by (simp add: div_less_iff_less_mult)
  moreover have "cp < 0x10000 \<Longrightarrow> cp div 4096 < 16" by (simp add: div_less_iff_less_mult)
  moreover have "cp div 262144 < 5" using cp by (simp add: div_less_iff_less_mult)
  ultimately show ?thesis
    by (auto simp: utf8Encode_def)
qed

lemma uriCharacter_escapeCodePoint:
  "cp < 0x110000 \<Longrightarrow> \<forall>c \<in> set (escapeCodePoint cp). uriCharacter c"
  using utf8Encode_octets [of cp] by (auto simp: escapeCodePoint_def dest: uriCharacter_percentEscape)

lemma encodeURIComponent_characters:
  "encodeURIComponent s = Inr e \<Longrightarrow> \<forall>c \<in> set e. uriCharacter c"
proof (induction s arbitrary: e rule: encodeURIComponent.induct)
  case 1
  then show ?case by simp
next
  case (2 c cs)
  show ?case
  proof (cases "uriUnescaped c")
    case True
    with "2.prems" obtain e' where "encodeURIComponent cs = Inr e'" "e = c # e'"
      by (auto simp: prepend_Inr_iff)
    with "2.IH"(1) [OF True] True show ?thesis
      by (simp add: uriCharacter_def)
  next
    case False
    note unescaped = this
    show ?thesis
    proof (cases "isTrailSurrogate c")
      case True
      with unescaped "2.prems" show ?thesis by simp
    next
      case False
      note trail = this
      show ?thesis
      proof (cases "isLeadSurrogate c")
        case True
        with unescaped trail "2.prems" obtain d ds e'
          where cs: "cs = d # ds" and d: "isTrailSurrogate d"
            and e': "encodeURIComponent ds = Inr e'" "e = escapeCodePoint (surrogatePair c d) @ e'"
          by (auto simp: prepend_Inr_iff split: list.splits if_splits)
        from "2.IH"(2) [OF unescaped trail True cs d e'(1)]
          uriCharacter_escapeCodePoint [OF surrogatePair_range(2) [OF True d]]
        show ?thesis
          by (auto simp: e'(2))
      next
        case False
        with unescaped trail "2.prems" obtain e'
          where e': "encodeURIComponent cs = Inr e'" "e = escapeCodePoint (unat c) @ e'"
          by (auto simp: prepend_Inr_iff)
        have "unat c < 0x110000"
          using unat_code_unit_less [of c] by simp
        from "2.IH"(3) [OF unescaped trail False e'(1)] uriCharacter_escapeCodePoint [OF this]
        show ?thesis
          by (auto simp: e'(2))
      qed
    qed
  qed
qed

lemma uriCharacter_plain:
  assumes "uriCharacter c"
  shows "c \<noteq> 0x3B" and "c \<noteq> 0x3D" and "c \<noteq> 0x20" and "c \<noteq> 0x5C"
    and "\<not> isWhiteSpace c" and "\<not> isLineTerminator c"
proof -
  have "unat c \<in> {0x21, 0x25, 0x27, 0x28, 0x29, 0x2A, 0x2D, 0x2E, 0x5F, 0x7E} \<or>
      (0x30 \<le> unat c \<and> unat c \<le> 0x39) \<or> (0x41 \<le> unat c \<and> unat c \<le> 0x5A) \<or>
      (0x61 \<le> unat c \<and> unat c \<le> 0x7A)"
    using assms by (auto simp: uriCharacter_def uriUnescaped_def word_le_nat_alt)
  then have range: "0x21 \<le> unat c \<and> unat c \<le> 0x7E \<and> unat c \<noteq> 0x3B \<and> unat c \<noteq> 0x3D \<and> unat c \<noteq> 0x5C"
    by auto
  from range show "c \<noteq> 0x3B" and "c \<noteq> 0x3D" and "c \<noteq> 0x20" and "c \<noteq> 0x5C"
    by auto
  from range show "\<not> isLineTerminator c"
    by (auto simp: isLineTerminator_def)
  from range show "\<not> isWhiteSpace c"
    by (auto simp: isWhiteSpace_def isLineTerminator_def word_le_nat_alt)
qed

lemma valueOf_until:
  assumes "0x3B \<notin> set V" and "\<forall>c \<in> set V. \<not> isLineTerminator c" and "r = [] \<or> hd r = 0x3B"
  shows "valueOf (V @ r) = Some V"
  using assms
proof (induction V)
  case Nil
  then show ?case by (cases r) simp_all
next
  case (Cons c V)
  then show ?case by simp
qed

lemma scan_afterName: "afterName E r = Some v \<Longrightarrow> scan E 0 r = Some v"
  by (cases r) (simp_all add: matchAt_def)


lemma prefix_name_equals:
  assumes "0x3D \<notin> set E" and "0x3D \<notin> set N"
  shows "prefix (E @ [0x3D]) (N @ 0x3D # V) \<longleftrightarrow> E = N"
proof
  assume "prefix (E @ [0x3D]) (N @ 0x3D # V)"
  then obtain t where t: "N @ 0x3D # V = E @ 0x3D # t"
    by (auto simp: prefix_def)
  then show "E = N"
    using assms by (auto simp: append_eq_append_conv2 append_eq_Cons_conv Cons_eq_append_conv)
next
  assume "E = N"
  then show "prefix (E @ [0x3D]) (N @ 0x3D # V)" by simp
qed

lemma afterName_cookie:
  assumes "0x3D \<notin> set E" and "0x3D \<notin> set N"
  shows "afterName E (N @ 0x3D # V) = (if E = N then valueOf V else None)"
  using prefix_name_equals [OF assms, of V] by (auto simp: afterName_def)

lemma regExpExec_capture:
  assumes "\<forall>c \<in> set E. uriCharacter c"
  shows "map_option capture (regExpExec (getCookieRegExp E) r) = map_option Some (scan E 0 r)"
  unfolding regExpExec_def using assms
  by (intro execFrom_getCookieRegExp) (auto dest: uriCharacter_plain)

lemma regExpTest_scan:
  assumes "\<forall>c \<in> set E. uriCharacter c"
  shows "regExpTest (getCookieRegExp E) r \<longleftrightarrow> scan E 0 r \<noteq> None"
  using regExpExec_capture [OF assms, of r]
  by (cases "regExpExec (getCookieRegExp E) r"; cases "scan E 0 r"; simp add: regExpTest_def)

lemma get_scan:
  assumes "encodeURIComponent name = Inr E"
  shows "get this name =
     Inr (case scan E 0 (cookie this) of
            None \<Rightarrow> []
          | Some v \<Rightarrow> if v = [] then [] else safeDecodeURIComponent v)"
proof -
  have chars: "\<forall>c \<in> set E. uriCharacter c"
    using assms by (rule encodeURIComponent_characters)
  show ?thesis
  proof (cases "scan E 0 (cookie this)")
    case None
    with regExpTest_scan [OF chars, of "cookie this"] show ?thesis
      by (simp add: get_def check_def assms)
  next
    case (Some v)
    with regExpExec_capture [OF chars, of "cookie this"]
    obtain m where "regExpExec (getCookieRegExp E) (cookie this) = Some m" "capture m = Some v"
      by auto
    with Some regExpTest_scan [OF chars, of "cookie this"] show ?thesis
      by (simp add: get_def check_def assms)
  qed
qed

lemma safeDecode_encoded:
  "encodeURIComponent s = Inr e \<Longrightarrow> safeDecodeURIComponent e = s"
  by (simp add: safeDecodeURIComponent_def decode_encode)

lemma encoded_empty: "encodeURIComponent s = Inr [] \<Longrightarrow> s = []"
  using decode_encode [of s "[]"] by simp

section \<open>The value decoder\<close>

lemma decode_malformed:
  "0x25 \<notin> set p \<Longrightarrow> parseHexOctet r = None \<Longrightarrow>
   decodeURIComponent (p @ 0x25 # r) = Inl URIError"
  by (induction p) (simp_all add: prepend_def)

text \<open>
  C9. On every input on which percent-decoding fails the value decoder returns the input
  unchanged, and on every other input it returns the percent-decoding; being a total
  function to strings it has no failing outcome. Decoding fails in particular when the
  first \<^verbatim>\<open>%\<close> of the input is not followed by two hexadecimal digits.
\<close>

theorem safeDecodeURIComponent_recovers:
  "(\<forall>e. decodeURIComponent s = Inl e \<longrightarrow> safeDecodeURIComponent s = s) \<and>
   (\<forall>d. decodeURIComponent s = Inr d \<longrightarrow> safeDecodeURIComponent s = d) \<and>
   (0x25 \<notin> set p \<and> parseHexOctet r = None \<longrightarrow>
      decodeURIComponent (p @ 0x25 # r) = Inl URIError \<and>
      safeDecodeURIComponent (p @ 0x25 # r) = p @ 0x25 # r)"
  by (simp add: safeDecodeURIComponent_def decode_malformed)

theorem safeDecodeURIComponent_recovers_witness:
  "decodeURIComponent (str ''50%'') = Inl URIError \<and>
   safeDecodeURIComponent (str ''50%'') = str ''50%'' \<and>
   decodeURIComponent (str ''a%20b'') = Inr (str ''a b'') \<and>
   safeDecodeURIComponent (str ''a%20b'') = str ''a b'' \<and>
   safeDecodeURIComponent (str ''1%zz'') = str ''1%zz''"
proof -
  have bad: "decodeURIComponent (str ''50%'') = Inl URIError"
    by (simp add: uri_defs)
  have good: "decodeURIComponent (str ''a%20b'') = Inr (str ''a b'')"
    by (simp add: uri_defs)
  have malformed: "0x25 \<notin> set (str ''1'') \<and> parseHexOctet (str ''zz'') = None"
    by (simp add: uri_defs)
  from safeDecodeURIComponent_recovers [of "str ''50%''"] bad
  have "safeDecodeURIComponent (str ''50%'') = str ''50%''" by blast
  moreover from safeDecodeURIComponent_recovers [of "str ''a%20b''"] good
  have "safeDecodeURIComponent (str ''a%20b'') = str ''a b''" by blast
  moreover from safeDecodeURIComponent_recovers [of _ "str ''1''" "str ''zz''"] malformed
  have "safeDecodeURIComponent (str ''1'' @ 0x25 # str ''zz'') = str ''1'' @ 0x25 # str ''zz''"
    by blast
  then have "safeDecodeURIComponent (str ''1%zz'') = str ''1%zz''"
    by (simp add: str_def)
  ultimately show ?thesis using bad good by simp
qed

section \<open>Reading all cookies\<close>

text \<open>
  C2. The claim that \<^verbatim>\<open>getAll\<close> cuts a fragment at its first \<^verbatim>\<open>=\<close> only fails on the
  code: for the cookie string \<^verbatim>\<open>a=b=c\<close> the object holds \<^verbatim>\<open>b\<close> under \<^verbatim>\<open>a\<close>, not
  \<^verbatim>\<open>b=c\<close>, while \<^verbatim>\<open>get\<close> on the same string returns \<^verbatim>\<open>b=c\<close>.
\<close>

theorem getAll_keeps_second_piece_only:
  "getAll (browser (str ''a=b=c'')) = [(str ''a'', str ''b'')] \<and>
   get (browser (str ''a=b=c'')) (str ''a'') = Inr (str ''b=c'')"
  by (simp add: svc_defs uri_defs re_defs)

section \<open>Writing on the server\<close>

text \<open>
  C3. The claim that two successive writes on the server leave both cookie strings in the
  response headers fails on the code: \<^verbatim>\<open>headers.set\<close> replaces the header, so after
  \<^verbatim>\<open>set('a', '1')\<close> and \<^verbatim>\<open>set('b', '2')\<close> the response holds one \<^verbatim>\<open>Set-Cookie\<close> header,
  that of the second call.
\<close>

theorem second_set_replaces_first_on_server:
  "snd (set_cookie P
          (snd (set_cookie P (server [] []) (str ''a'') (str ''1'') Undefined None None None None None))
          (str ''b'') (str ''2'') Undefined None None None None None) =
   server [] [(str ''Set-Cookie'', str ''b=2;sameSite=Lax;'')]"
  by (simp add: set_defs uri_defs)

subsection \<open>What a write leaves unchanged\<close>

lemma sameRequest_refl [simp]: "sameRequest a a"
  by (simp add: sameRequest_def)

lemma sameRequest_trans: "sameRequest a b \<Longrightarrow> sameRequest b c \<Longrightarrow> sameRequest a c"
  by (simp add: sameRequest_def)

lemma sameRequest_cookie: "sameRequest a b \<Longrightarrow> cookie b = cookie a"
  by (simp add: sameRequest_def cookie_def)

lemma writeCookie_server:
  "\<not> documentIsAccessible this \<Longrightarrow> sameRequest this (snd (writeCookie P this s))"
  by (simp add: writeCookie_def sameRequest_def split: option.splits sum.splits)

lemma setWithOptions_server:
  "\<not> documentIsAccessible this \<Longrightarrow> sameRequest this (snd (setWithOptions P this name v opts))"
proof (cases "buildCookieString P name v opts")
  case (Inl e)
  then show ?thesis by (simp add: setWithOptions_def)
next
  case (Inr s)
  assume server: "\<not> documentIsAccessible this"
  let ?warned = "if forcedSecure opts then this\<lparr>console := console this @ [warning name]\<rparr> else this"
  have "sameRequest this ?warned" by (simp add: sameRequest_def)
  moreover have "sameRequest ?warned (snd (writeCookie P ?warned s))"
    using server by (intro writeCookie_server) simp
  ultimately show ?thesis
    using Inr by (simp add: setWithOptions_def sameRequest_def)
qed

lemma set_cookie_server:
  "\<not> documentIsAccessible this \<Longrightarrow>
   sameRequest this (snd (set_cookie P this name v e p d s ss pa))"
  by (simp add: set_cookie_def setWithOptions_server)

lemma delete_server:
  "\<not> documentIsAccessible this \<Longrightarrow> sameRequest this (snd (delete P this name p d s ss))"
  by (simp add: delete_def set_cookie_server)

lemma deleteEach_server:
  "\<not> documentIsAccessible this \<Longrightarrow>
   sameRequest this (snd (deleteEach P this cookies names p d s ss))"
proof (induction names arbitrary: this)
  case Nil
  show ?case by simp
next
  case (Cons n names)
  show ?case
  proof (cases "map_of cookies (str ''hasOwnProperty'') \<noteq> None")
    case True
    then show ?thesis by simp
  next
    case False
    obtain r this' where d: "delete P this n p d s ss = (r, this')"
      by (cases "delete P this n p d s ss")
    with Cons.prems have same: "sameRequest this this'"
      using delete_server [of this P n p d s ss] by simp
    then have server': "\<not> documentIsAccessible this'"
      using Cons.prems by (simp add: sameRequest_def)
    show ?thesis
    proof (cases r)
      case (Inl e)
      with d same False show ?thesis by simp
    next
      case (Inr u)
      with d False
      have "deleteEach P this cookies (n # names) p d s ss = deleteEach P this' cookies names p d s ss"
        by simp
      with Cons.IH [OF server'] same show ?thesis
        by (auto intro: sameRequest_trans)
    qed
  qed
qed

lemma perform_server:
  "\<not> documentIsAccessible this \<Longrightarrow> sameRequest this (perform P this operation)"
  by (cases operation)
    (simp_all add: set_cookie_server delete_server deleteAll_def Let_def deleteEach_server)

lemma performAll_server:
  "\<not> documentIsAccessible this \<Longrightarrow> sameRequest this (foldl (perform P) this operations)"
proof (induction operations arbitrary: this)
  case Nil
  show ?case by simp
next
  case (Cons operation operations)
  have step: "sameRequest this (perform P this operation)"
    using Cons.prems by (rule perform_server)
  then have "\<not> documentIsAccessible (perform P this operation)"
    using Cons.prems by (simp add: sameRequest_def)
  from Cons.IH [OF this] step show ?case
    by (auto intro: sameRequest_trans)
qed

text \<open>
  C8. On the server no sequence of operations changes what is read: after it,
  \<^verbatim>\<open>cookie()\<close> is still the value of the request's \<^verbatim>\<open>Cookie\<close> header (or the empty string),
  and \<^verbatim>\<open>check\<close>, \<^verbatim>\<open>get\<close> and \<^verbatim>\<open>getAll\<close> return what they returned before it.
\<close>

theorem server_reads_ignore_writes:
  assumes "\<not> documentIsAccessible this"
  shows "cookie (foldl (perform P) this operations) = snapshot this \<and>
         cookie this = snapshot this \<and>
         check (foldl (perform P) this operations) name = check this name \<and>
         get (foldl (perform P) this operations) name = get this name \<and>
         getAll (foldl (perform P) this operations) = getAll this"
proof -
  have after: "cookie (foldl (perform P) this operations) = cookie this"
    using assms by (intro sameRequest_cookie performAll_server)
  have before: "cookie this = snapshot this"
    using assms by (simp add: cookie_def snapshot_def)
  show ?thesis
    unfolding check_def get_def getAll_def after by (simp add: before)
qed

theorem server_reads_ignore_writes_witness:
  "cookie (foldl (perform testPlatform) (server [(str ''Cookie'', str ''a=1'')] [])
       [Set (str ''b'') (str ''2'') Undefined None None None None None,
        DeleteAll None None None None]) = str ''a=1'' \<and>
   get (foldl (perform testPlatform) (server [(str ''Cookie'', str ''a=1'')] [])
       [Set (str ''b'') (str ''2'') Undefined None None None None None,
        DeleteAll None None None None]) (str ''a'') = Inr (str ''1'')"
proof -
  let ?srv = "server [(str ''Cookie'', str ''a=1'')] []"
  let ?ops = "[Set (str ''b'') (str ''2'') Undefined None None None None None,
        DeleteAll None None None None]"
  have server: "\<not> documentIsAccessible ?srv"
    by (simp add: server_def)
  have snapshot: "snapshot ?srv = str ''a=1''"
    by (simp add: snapshot_def server_def headers_get_def sameHeaderName_def asciiLower_def str_def)
  have before: "get ?srv (str ''a'') = Inr (str ''1'')"
    by (simp add: svc_defs uri_defs re_defs server_def headers_get_def sameHeaderName_def
        asciiLower_def)
  from server_reads_ignore_writes [OF server, of testPlatform ?ops "str ''a''"]
  have "cookie (foldl (perform testPlatform) ?srv ?ops) = snapshot ?srv"
    and "get (foldl (perform testPlatform) ?srv ?ops) (str ''a'') = get ?srv (str ''a'')"
    by blast+
  with snapshot before show ?thesis
    by simp
qed

section \<open>The two call shapes of \<^verbatim>\<open>set\<close>\<close>

text \<open>
  C4. The claim that a positional call is normalized whenever an attribute is present
  fails on the code for \<^verbatim>\<open>partitioned\<close>: the test of line 191 does not look at it, so
  a call whose only attribute is \<^verbatim>\<open>partitioned = true\<close> writes a string without
  \<^verbatim>\<open>Partitioned;\<close>, while the same call with a path as well writes it.
\<close>

theorem positional_partitioned_alone_is_dropped:
  "set_cookie P (server [] []) (str ''n'') (str ''v'') Undefined None None None None (Some True) =
     (Inr (), server [] [(str ''Set-Cookie'', str ''n=v;sameSite=Lax;'')]) \<and>
   set_cookie P (server [] []) (str ''n'') (str ''v'') Undefined (Some (str ''/'')) None None None (Some True) =
     (Inr (), server [] [(str ''Set-Cookie'', str ''n=v;path=/;sameSite=Lax;Partitioned;'')])"
  by (simp add: set_defs uri_defs)

lemma set_cookie_partitioned_alone:
  "set_cookie P this name v Undefined None None None None (Some True) =
   set_cookie P this name v Undefined None None None None None"
  by (simp add: set_cookie_def setWithOptions_def buildCookieString_def noOptions_def
      forcedSecure_def truthyString_def)

section \<open>The attributes of the cookie string\<close>









section \<open>Reading a cookie by name\<close>




text \<open>
  C7. Whenever \<^verbatim>\<open>set\<close> builds a cookie string from a name and a value with no
  attributes (that is, whenever both can be percent-encoded), \<^verbatim>\<open>get\<close> of that name on
  that string returns the value. The encoded name and value never contain \<^verbatim>\<open>;\<close> or
  \<^verbatim>\<open>=\<close> (\<open>encodeURIComponent_characters\<close>, \<open>uriCharacter_plain\<close>), so the claim's
  side condition holds of every such name and value.
\<close>

theorem get_reads_back_what_set_builds:
  assumes "buildCookieString P name v noOptions = Inr s" and "cookie this = s"
  shows "get this name = Inr v"
proof -
  from assms(1) obtain E V
    where E: "encodeURIComponent name = Inr E" and V: "encodeURIComponent v = Inr V"
      and s: "s = E @ 0x3D # V @ 0x3B # str ''sameSite=Lax;''"
    by (auto simp: buildCookieString_def noOptions_def forcedSecure_def truthyString_def str_def
        split: sum.splits)
  have E_chars: "0x3D \<notin> set E"
    using encodeURIComponent_characters [OF E] by (auto dest: uriCharacter_plain)
  have "0x3B \<notin> set V" and "\<forall>c \<in> set V. \<not> isLineTerminator c"
    using encodeURIComponent_characters [OF V] by (auto dest: uriCharacter_plain)
  then have "valueOf (V @ 0x3B # str ''sameSite=Lax;'') = Some V"
    by (intro valueOf_until) simp_all
  then have "afterName E s = Some V"
    using afterName_cookie [OF E_chars E_chars] by (simp add: s)
  then have "scan E 0 (cookie this) = Some V"
    using assms(2) by (simp add: scan_afterName)
  then have "get this name = Inr (if V = [] then [] else safeDecodeURIComponent V)"
    by (simp add: get_scan [OF E])
  then show ?thesis
    using safeDecode_encoded [OF V] encoded_empty [of v] V by auto
qed

theorem get_reads_back_what_set_builds_witness:
  "buildCookieString testPlatform (str ''id'') (str ''a b;c=d'') noOptions =
     Inr (str ''id=a%20b%3Bc%3Dd;sameSite=Lax;'') \<and>
   get (browser (str ''id=a%20b%3Bc%3Dd;sameSite=Lax;'')) (str ''id'') = Inr (str ''a b;c=d'')"
proof -
  have build: "buildCookieString testPlatform (str ''id'') (str ''a b;c=d'') noOptions =
      Inr (str ''id=a%20b%3Bc%3Dd;sameSite=Lax;'')"
    by (simp add: set_defs uri_defs)
  have "cookie (browser (str ''id=a%20b%3Bc%3Dd;sameSite=Lax;'')) = str ''id=a%20b%3Bc%3Dd;sameSite=Lax;''"
    by (simp add: cookie_def browser_def)
  from get_reads_back_what_set_builds [OF build this] build show ?thesis
    by simp
qed

section \<open>Cookie strings with a repeated name\<close>

































end
